theory Spec2Isabelle
  imports Main "HOL-Library.AList"
begin

section \<open>Data model of \<^verbatim>\<open>train_reservation_system.py\<close>\<close>

text \<open>
  The ticket status is one of the three string literals the program ever assigns or
  compares: \<^verbatim>\<open>"Confirmed"\<close>, \<^verbatim>\<open>"Waiting"\<close>, \<^verbatim>\<open>"Cancelled"\<close>.
\<close>

datatype status = Confirmed | Waiting | Cancelled

text \<open>A passenger is the dictionary \<^verbatim>\<open>{"name": name, "age": age}\<close>; both values are the
  raw input strings.\<close>

type_synonym passenger = "string \<times> string"

text \<open>Class \<^verbatim>\<open>Train\<close>. The waiting list stores PNR strings.\<close>

record train =
  train_no :: string
  name :: string
  source :: string
  destination :: string
  total_seats :: int
  available_seats :: int
  waiting_list :: "string list"

text \<open>
  Class \<^verbatim>\<open>Ticket\<close>. The field \<open>train\<close> is a reference to a \<^verbatim>\<open>Train\<close> object: an
  address in the object store below. The field \<^verbatim>\<open>booking_date\<close> (the wall clock at
  creation) is read only by the receipt formatter and is left out.
\<close>

record ticket =
  pnr :: string
  train :: nat
  passengers :: "passenger list"
  status :: status

text \<open>
  The state of the process: the \<^verbatim>\<open>Train\<close> objects that have been constructed (an
  object's address is its index in \<open>heap\<close>), the two dictionaries of
  \<^verbatim>\<open>ReservationSystem\<close> in insertion order, and the class attribute
  \<^verbatim>\<open>Ticket.pnr_counter\<close>. The dictionary \<open>trains\<close> holds references; a \<^verbatim>\<open>Ticket\<close>
  object is only ever referenced from \<open>tickets\<close>, so it is stored there by value.
\<close>

record system =
  heap :: "train list"
  trains :: "(string \<times> nat) list"
  tickets :: "(string \<times> ticket) list"
  pnr_counter :: int

datatype error =
    InvalidTrainNumber      \<comment> \<open>\<^verbatim>\<open>Error: Invalid train number.\<close>\<close>
  | InvalidInput            \<comment> \<open>\<^verbatim>\<open>Error: Invalid input. Please enter a number.\<close>\<close>
  | PassengersNotPositive   \<comment> \<open>\<^verbatim>\<open>Error: Number of passengers must be positive.\<close>\<close>
  | InvalidPNR              \<comment> \<open>\<^verbatim>\<open>Error: Invalid PNR number.\<close>\<close>
  | AlreadyCancelled        \<comment> \<open>\<^verbatim>\<open>Error: This ticket has already been cancelled.\<close>\<close>
  | KeyError                \<comment> \<open>uncaught: \<^verbatim>\<open>self.tickets[pnr_from_wl]\<close> on a missing key\<close>
  | ValueError              \<comment> \<open>uncaught: \<^verbatim>\<open>waiting_list.index(pnr)\<close> on a missing element\<close>

section \<open>Python's \<^verbatim>\<open>str\<close> on integers\<close>

definition digit_char :: "nat \<Rightarrow> char" where
  "digit_char d = ''0123456789'' ! d"

fun digits :: "nat \<Rightarrow> string" where
  "digits n = (if n < 10 then [digit_char n] else digits (n div 10) @ [digit_char (n mod 10)])"

declare digits.simps [simp del]

definition str :: "int \<Rightarrow> string" where
  "str i = (if i < 0 then CHR ''-'' # digits (nat (- i)) else digits (nat i))"

text \<open>Reading a decimal string back as a number (used only to state properties of PNRs).\<close>

definition digit_value :: "char \<Rightarrow> nat" where
  "digit_value c = of_char c - 48"

definition digits_value :: "string \<Rightarrow> nat" where
  "digits_value cs = foldl (\<lambda>acc c. 10 * acc + digit_value c) 0 cs"

definition str_value :: "string \<Rightarrow> int" where
  "str_value cs = (case cs of
       [] \<Rightarrow> 0
     | c # rest \<Rightarrow> if c = CHR ''-'' then - int (digits_value rest) else int (digits_value cs))"

section \<open>The classes \<^verbatim>\<open>Train\<close> and \<^verbatim>\<open>Ticket\<close>\<close>

definition Train_init :: "string \<Rightarrow> string \<Rightarrow> string \<Rightarrow> string \<Rightarrow> int \<Rightarrow> train" where
  "Train_init no nm src dst seats =
     \<lparr>train_no = no, name = nm, source = src, destination = dst,
      total_seats = seats, available_seats = seats, waiting_list = []\<rparr>"

text \<open>Constructing an object puts it at a fresh address.\<close>

definition new_Train :: "system \<Rightarrow> string \<Rightarrow> string \<Rightarrow> string \<Rightarrow> string \<Rightarrow> int \<Rightarrow> nat \<times> system" where
  "new_Train s no nm src dst seats =
     (length (heap s), s\<lparr>heap := heap s @ [Train_init no nm src dst seats]\<rparr>)"

definition check_availability :: "train \<Rightarrow> int" where
  "check_availability t = available_seats t"

text \<open>In-place mutation of the object at address \<open>a\<close>.\<close>

definition upd_train :: "system \<Rightarrow> nat \<Rightarrow> (train \<Rightarrow> train) \<Rightarrow> system" where
  "upd_train s a f = s\<lparr>heap := (heap s)[a := f (heap s ! a)]\<rparr>"

text \<open>\<^verbatim>\<open>Ticket.__init__\<close>: increments the class counter, then reads it.\<close>

definition Ticket_init :: "system \<Rightarrow> nat \<Rightarrow> passenger list \<Rightarrow> ticket \<times> system" where
  "Ticket_init s tr ps =
     (let c = pnr_counter s + 1 in
      (\<lparr>pnr = str c, train = tr, passengers = ps,
        status = (if check_availability (heap s ! tr) \<ge> int (length ps)
                  then Confirmed else Waiting)\<rparr>,
       s\<lparr>pnr_counter := c\<rparr>))"

section \<open>The class \<^verbatim>\<open>ReservationSystem\<close>\<close>

text \<open>A fresh process: no objects, empty dictionaries, the counter at its random seed.\<close>

definition ReservationSystem_init :: "int \<Rightarrow> system" where
  "ReservationSystem_init seed = \<lparr>heap = [], trains = [], tickets = [], pnr_counter = seed\<rparr>"

text \<open>\<^verbatim>\<open>add_train\<close>: a plain dictionary assignment under the object's \<^verbatim>\<open>train_no\<close>.\<close>

definition add_train :: "system \<Rightarrow> nat \<Rightarrow> system" where
  "add_train s tr = s\<lparr>trains := AList.update (train_no (heap s ! tr)) tr (trains s)\<rparr>"

text \<open>
  \<^verbatim>\<open>book_ticket\<close>. The operator's input is the train number, the text entered for the
  number of passengers (\<open>None\<close> when \<^verbatim>\<open>int(...)\<close> raises \<^verbatim>\<open>ValueError\<close>), and the
  name and age entered for the \<open>i\<close>-th passenger. The result is the printed ticket.
  The route listing printed first (\<^verbatim>\<open>display_trains\<close>) reads the state only and is
  left out, as is the formatting of the receipt.
\<close>

definition book_ticket ::
  "system \<Rightarrow> string \<Rightarrow> int option \<Rightarrow> (nat \<Rightarrow> passenger) \<Rightarrow> (error + ticket) \<times> system" where
  "book_ticket s no num inp =
     (case map_of (trains s) no of
        None \<Rightarrow> (Inl InvalidTrainNumber, s)
      | Some selected_train \<Rightarrow>
          (case num of
             None \<Rightarrow> (Inl InvalidInput, s)
           | Some num_passengers \<Rightarrow>
               if num_passengers \<le> 0 then (Inl PassengersNotPositive, s)
               else
                 let ps = map inp [0..<nat num_passengers];
                     (new_ticket, s1) = Ticket_init s selected_train ps;
                     s2 = s1\<lparr>tickets := AList.update (pnr new_ticket) new_ticket (tickets s1)\<rparr>
                 in if status new_ticket = Confirmed
                    then (Inr new_ticket,
                          upd_train s2 selected_train
                            (\<lambda>t. t\<lparr>available_seats := available_seats t - int (length ps)\<rparr>))
                    else (Inr new_ticket,
                          upd_train s2 selected_train
                            (\<lambda>t. t\<lparr>waiting_list := waiting_list t @ [pnr new_ticket]\<rparr>))))"

text \<open>
  \<^verbatim>\<open>cancel_ticket\<close>, lines 134--143: the status is overwritten first, and the test that
  guards the seat credit reads the status after that assignment. The first conjunct of the
  guard, \<^verbatim>\<open>ticket_to_cancel in self.tickets.values()\<close>, is membership of the updated
  ticket among the stored ones.
\<close>

definition mark_cancelled :: "system \<Rightarrow> string \<Rightarrow> ticket \<Rightarrow> system" where
  "mark_cancelled s pnr_to_cancel ticket_to_cancel =
     (let num_passengers = int (length (passengers ticket_to_cancel));
          cancelled = ticket_to_cancel\<lparr>status := Cancelled\<rparr>;
          s1 = s\<lparr>tickets := AList.update pnr_to_cancel cancelled (tickets s)\<rparr>
      in if cancelled \<in> set (map snd (tickets s1)) \<and> status cancelled \<noteq> Cancelled
         then upd_train s1 (train ticket_to_cancel)
                (\<lambda>t. t\<lparr>available_seats := available_seats t + num_passengers\<rparr>)
         else s1)"

text \<open>
  \<^verbatim>\<open>cancel_ticket\<close>, lines 145--154: the head of the waiting list of the cancelled
  ticket's train. The result is the PNR that was confirmed, if any. A head PNR that is
  not a key of the ticket dictionary raises \<^verbatim>\<open>KeyError\<close> after the cancelled ticket has
  been marked.
\<close>

definition confirm_waiting_head :: "system \<Rightarrow> nat \<Rightarrow> (error + string option) \<times> system" where
  "confirm_waiting_head s tr =
     (case waiting_list (heap s ! tr) of
        [] \<Rightarrow> (Inr None, s)
      | pnr_from_wl # rest \<Rightarrow>
          (case map_of (tickets s) pnr_from_wl of
             None \<Rightarrow> (Inl KeyError, s)
           | Some ticket_to_confirm \<Rightarrow>
               if available_seats (heap s ! tr) \<ge> int (length (passengers ticket_to_confirm))
               then (Inr (Some pnr_from_wl),
                     upd_train
                       (s\<lparr>tickets := AList.update pnr_from_wl
                                       (ticket_to_confirm\<lparr>status := Confirmed\<rparr>) (tickets s)\<rparr>)
                       tr
                       (\<lambda>t. t\<lparr>available_seats :=
                                 available_seats t - int (length (passengers ticket_to_confirm)),
                              waiting_list := rest\<rparr>))
               else (Inr None, s)))"

definition cancel_ticket :: "system \<Rightarrow> string \<Rightarrow> (error + string option) \<times> system" where
  "cancel_ticket s pnr_to_cancel =
     (case map_of (tickets s) pnr_to_cancel of
        None \<Rightarrow> (Inl InvalidPNR, s)
      | Some ticket_to_cancel \<Rightarrow>
          if status ticket_to_cancel = Cancelled then (Inl AlreadyCancelled, s)
          else confirm_waiting_head (mark_cancelled s pnr_to_cancel ticket_to_cancel)
                 (train ticket_to_cancel))"

text \<open>\<^verbatim>\<open>list.index\<close>: the first position of an element, \<open>None\<close> where Python raises.\<close>

fun index :: "'a list \<Rightarrow> 'a \<Rightarrow> nat option" where
  "index [] x = None"
| "index (y # ys) x = (if y = x then Some 0 else map_option Suc (index ys x))"

text \<open>\<^verbatim>\<open>check_pnr_status\<close>: the ticket shown and, for a waiting ticket, its position.\<close>

definition check_pnr_status :: "system \<Rightarrow> string \<Rightarrow> error + (ticket \<times> nat option)" where
  "check_pnr_status s pnr_to_check =
     (case map_of (tickets s) pnr_to_check of
        None \<Rightarrow> Inl InvalidPNR
      | Some t \<Rightarrow>
          if status t = Waiting
          then (case index (waiting_list (heap s ! train t)) pnr_to_check of
                  None \<Rightarrow> Inl ValueError
                | Some i \<Rightarrow> Inr (t, Some (i + 1)))
          else Inr (t, None))"

section \<open>Runs of the system\<close>

datatype op =
    AddTrain string string string string int
  | BookTicket string "int option" "nat \<Rightarrow> passenger"
  | CancelTicket string
  | CheckStatus string

fun step :: "system \<Rightarrow> op \<Rightarrow> system" where
  "step s (AddTrain no nm src dst seats) =
     (let (tr, s1) = new_Train s no nm src dst seats in add_train s1 tr)"
| "step s (BookTicket no num inp) = snd (book_ticket s no num inp)"
| "step s (CancelTicket p) = snd (cancel_ticket s p)"
| "step s (CheckStatus p) = s"

definition exec :: "op list \<Rightarrow> system \<Rightarrow> system" where
  "exec ops s = foldl step s ops"

section \<open>Consistency of a state\<close>

text \<open>
  What every state reached by the operations satisfies: each stored ticket is filed under
  its own PNR, refers to a constructed train, has a PNR issued by the counter, and is
  queued while it waits; each waiting list is free of duplicates and holds PNRs of stored
  tickets of that train that are not confirmed and need more seats than the train has left;
  the train dictionary refers to constructed trains.
\<close>

definition tickets_ok :: "system \<Rightarrow> bool" where
  "tickets_ok s \<longleftrightarrow>
     (\<forall>p t. map_of (tickets s) p = Some t \<longrightarrow>
        pnr t = p \<and> train t < length (heap s) \<and> (\<exists>k. k \<le> pnr_counter s \<and> p = str k) \<and>
        (status t = Waiting \<longrightarrow> p \<in> set (waiting_list (heap s ! train t))))"

definition queues_ok :: "system \<Rightarrow> bool" where
  "queues_ok s \<longleftrightarrow>
     (\<forall>a < length (heap s).
        distinct (waiting_list (heap s ! a)) \<and>
        (\<forall>p \<in> set (waiting_list (heap s ! a)).
           \<exists>t. map_of (tickets s) p = Some t \<and> train t = a \<and> status t \<noteq> Confirmed \<and>
               available_seats (heap s ! a) < int (length (passengers t))))"

definition trains_ok :: "system \<Rightarrow> bool" where
  "trains_ok s \<longleftrightarrow> (\<forall>no a. map_of (trains s) no = Some a \<longrightarrow> a < length (heap s))"

definition consistent :: "system \<Rightarrow> bool" where
  "consistent s \<longleftrightarrow> tickets_ok s \<and> queues_ok s \<and> trains_ok s"

section \<open>Observations used to state properties\<close>

text \<open>The train record filed under a train number (\<^verbatim>\<open>self.trains[train_no]\<close>).\<close>

definition train_of :: "system \<Rightarrow> string \<Rightarrow> train option" where
  "train_of s no = (case map_of (trains s) no of None \<Rightarrow> None | Some a \<Rightarrow> Some (heap s ! a))"

text \<open>The seats held by the confirmed tickets of the train at address \<open>a\<close>.\<close>

definition confirmed_seats :: "system \<Rightarrow> nat \<Rightarrow> int" where
  "confirmed_seats s a =
     sum_list (map (\<lambda>(p, t). if train t = a \<and> status t = Confirmed
                              then int (length (passengers t)) else 0) (tickets s))"

section \<open>Sample runs\<close>

definition pax :: "nat \<Rightarrow> passenger" where
  "pax i = (''Asha'', ''30'')"

definition fresh_system :: system where
  "fresh_system = ReservationSystem_init 1000000"

text \<open>A train with two seats and one booking for two passengers.\<close>

definition full_train :: system where
  "full_train = exec [AddTrain ''12028'' ''Shatabdi Express'' ''Bengaluru'' ''Chennai'' 2,
                      BookTicket ''12028'' (Some 2) pax] fresh_system"

text \<open>The same, followed by a booking for one passenger, which has to wait.\<close>

definition full_train_queued :: system where
  "full_train_queued = step full_train (BookTicket ''12028'' (Some 1) pax)"

text \<open>A train with one seat and a booking for two passengers, which has to wait.\<close>

definition small_train_queued :: system where
  "small_train_queued = exec [AddTrain ''12007'' ''Mysuru Shatabdi'' ''Chennai'' ''Mysuru'' 1,
                              BookTicket ''12007'' (Some 2) pax] fresh_system"

text \<open>
  Two states written out by hand, with a confirmed ticket for two passengers and a waiting
  list whose head needs three seats and whose second entry needs one: in the first the
  train has two seats available, in the second four.
\<close>

definition queue_members :: "(string \<times> ticket) list" where
  "queue_members =
     [(''1000001'', \<lparr>pnr = ''1000001'', train = 0, passengers = [pax 0, pax 1], status = Confirmed\<rparr>),
      (''1000002'', \<lparr>pnr = ''1000002'', train = 0, passengers = [pax 0, pax 1, pax 2],
                     status = Waiting\<rparr>),
      (''1000003'', \<lparr>pnr = ''1000003'', train = 0, passengers = [pax 0], status = Waiting\<rparr>)]"

definition queue_head_blocked :: system where
  "queue_head_blocked =
     \<lparr>heap = [\<lparr>train_no = ''12028'', name = ''Shatabdi Express'', source = ''Bengaluru'',
               destination = ''Chennai'', total_seats = 4, available_seats = 2,
               waiting_list = [''1000002'', ''1000003'']\<rparr>],
      trains = [(''12028'', 0)], tickets = queue_members, pnr_counter = 1000003\<rparr>"

definition queue_head_fits :: system where
  "queue_head_fits =
     \<lparr>heap = [\<lparr>train_no = ''12028'', name = ''Shatabdi Express'', source = ''Bengaluru'',
               destination = ''Chennai'', total_seats = 6, available_seats = 4,
               waiting_list = [''1000002'', ''1000003'']\<rparr>],
      trains = [(''12028'', 0)], tickets = queue_members, pnr_counter = 1000003\<rparr>"

lemmas run_defs = exec_def ReservationSystem_init_def new_Train_def Train_init_def
  add_train_def book_ticket_def Ticket_init_def check_availability_def upd_train_def
  cancel_ticket_def mark_cancelled_def confirm_waiting_head_def
  str_def digits.simps digit_char_def Let_def pax_def fresh_system_def upt_conv_Cons

section \<open>Decimal strings\<close>

lemma map_of_update: "map_of (AList.update k v al) = (map_of al)(k \<mapsto> v)"
  by (rule update_conv')

lemma digit_char_cases:
  assumes "(d::nat) < 10"
  shows "d = 0 \<or> d = 1 \<or> d = 2 \<or> d = 3 \<or> d = 4 \<or> d = 5 \<or> d = 6 \<or> d = 7 \<or> d = 8 \<or> d = 9"
  using assms by arith

lemma digit_value_char: "d < 10 \<Longrightarrow> digit_value (digit_char d) = d"
  using digit_char_cases [of d] by (auto simp: digit_value_def digit_char_def)

lemma digit_char_not_minus: "d < 10 \<Longrightarrow> digit_char d \<noteq> CHR ''-''"
  using digit_char_cases [of d] by (auto simp: digit_char_def)

lemma digits_value_snoc: "digits_value (cs @ [c]) = 10 * digits_value cs + digit_value c"
  by (simp add: digits_value_def)

lemma digits_value_digits: "digits_value (digits n) = n"
proof (induction n rule: digits.induct)
  case (1 n)
  show ?case
  proof (cases "n < 10")
    case True
    then show ?thesis
      by (subst digits.simps) (simp add: digits_value_def digit_value_char)
  next
    case False
    with 1 have "digits_value (digits (n div 10)) = n div 10" by simp
    with False show ?thesis
      by (subst digits.simps) (simp add: digits_value_snoc digit_value_char)
  qed
qed

lemma digits_head: "\<exists>c rest. digits n = c # rest \<and> c \<noteq> CHR ''-''"
proof (induction n rule: digits.induct)
  case (1 n)
  show ?case
  proof (cases "n < 10")
    case True
    then show ?thesis
      by (subst digits.simps) (simp add: digit_char_not_minus)
  next
    case False
    with 1 obtain c rest where "digits (n div 10) = c # rest" "c \<noteq> CHR ''-''" by blast
    with False show ?thesis
      by (subst digits.simps) simp
  qed
qed

lemma str_value_str: "str_value (str i) = i"
proof (cases "i < 0")
  case True
  then show ?thesis
    by (simp add: str_def str_value_def digits_value_digits)
next
  case False
  obtain c rest where d: "digits (nat i) = c # rest" "c \<noteq> CHR ''-''"
    using digits_head by blast
  have "digits_value (c # rest) = nat i"
    using digits_value_digits [of "nat i"] d by simp
  with False d show ?thesis
    by (simp add: str_def str_value_def)
qed

lemma str_inj: "str i = str j \<Longrightarrow> i = j"
  by (metis str_value_str)


subsection \<open>Effects of the operations\<close>

lemma book_ticket_confirmed:
  assumes "map_of (trains s) no = Some a" "0 < n" "n \<le> available_seats (heap s ! a)"
  shows "book_ticket s no (Some n) inp =
     (Inr \<lparr>pnr = str (pnr_counter s + 1), train = a, passengers = map inp [0..<nat n],
           status = Confirmed\<rparr>,
      s\<lparr>heap := (heap s)[a := (heap s ! a)\<lparr>available_seats := available_seats (heap s ! a) - n\<rparr>],
        tickets := AList.update (str (pnr_counter s + 1))
                     \<lparr>pnr = str (pnr_counter s + 1), train = a,
                      passengers = map inp [0..<nat n], status = Confirmed\<rparr> (tickets s),
        pnr_counter := pnr_counter s + 1\<rparr>)"
  using assms
  by (simp add: book_ticket_def Ticket_init_def check_availability_def upd_train_def Let_def)

lemma book_ticket_waiting:
  assumes "map_of (trains s) no = Some a" "0 < n" "available_seats (heap s ! a) < n"
  shows "book_ticket s no (Some n) inp =
     (Inr \<lparr>pnr = str (pnr_counter s + 1), train = a, passengers = map inp [0..<nat n],
           status = Waiting\<rparr>,
      s\<lparr>heap := (heap s)[a := (heap s ! a)\<lparr>waiting_list :=
                     waiting_list (heap s ! a) @ [str (pnr_counter s + 1)]\<rparr>],
        tickets := AList.update (str (pnr_counter s + 1))
                     \<lparr>pnr = str (pnr_counter s + 1), train = a,
                      passengers = map inp [0..<nat n], status = Waiting\<rparr> (tickets s),
        pnr_counter := pnr_counter s + 1\<rparr>)"
  using assms
  by (simp add: book_ticket_def Ticket_init_def check_availability_def upd_train_def Let_def)

lemma book_ticket_rejected:
  assumes "map_of (trains s) no = None \<or> num = None \<or> (\<exists>n. num = Some n \<and> n \<le> 0)"
  shows "snd (book_ticket s no num inp) = s"
  using assms by (auto simp: book_ticket_def split: option.splits)

lemma mark_cancelled_eq:
  "mark_cancelled s p t = s\<lparr>tickets := AList.update p (t\<lparr>status := Cancelled\<rparr>) (tickets s)\<rparr>"
  by (simp add: mark_cancelled_def Let_def)

subsection \<open>Every operation keeps the state consistent\<close>

lemma consistent_init: "consistent (ReservationSystem_init seed)"
  by (simp add: consistent_def tickets_ok_def queues_ok_def trains_ok_def ReservationSystem_init_def)

lemma step_AddTrain:
  "step s (AddTrain no nm src dst seats) =
     s\<lparr>heap := heap s @ [Train_init no nm src dst seats],
       trains := AList.update no (length (heap s)) (trains s)\<rparr>"
  by (simp add: new_Train_def add_train_def Train_init_def)


lemma tickets_okD:
  assumes "tickets_ok s" "map_of (tickets s) p = Some t"
  shows "pnr t = p" "train t < length (heap s)" "\<exists>k. k \<le> pnr_counter s \<and> p = str k"
    "status t = Waiting \<Longrightarrow> p \<in> set (waiting_list (heap s ! train t))"
  using assms unfolding tickets_ok_def by blast+

lemma queues_okD:
  assumes "queues_ok s" "a < length (heap s)"
  shows "distinct (waiting_list (heap s ! a))"
    "p \<in> set (waiting_list (heap s ! a)) \<Longrightarrow>
       \<exists>t. map_of (tickets s) p = Some t \<and> train t = a \<and> status t \<noteq> Confirmed \<and>
           available_seats (heap s ! a) < int (length (passengers t))"
  using assms unfolding queues_ok_def by blast+

lemma consistent_AddTrain:
  assumes "consistent s"
  shows "consistent (step s (AddTrain no nm src dst seats))"
proof -
  let ?s' = "step s (AddTrain no nm src dst seats)"
  from assms have T: "tickets_ok s" and Q: "queues_ok s" and R: "trains_ok s"
    by (simp_all add: consistent_def)
  have h: "heap ?s' = heap s @ [Train_init no nm src dst seats]"
    and tk: "tickets ?s' = tickets s" and c: "pnr_counter ?s' = pnr_counter s"
    and tr: "map_of (trains ?s') = (map_of (trains s))(no \<mapsto> length (heap s))"
    by (simp_all add: step_AddTrain map_of_update del: step.simps)
  have t: "tickets_ok ?s'"
    unfolding tickets_ok_def tk c h
  proof (intro allI impI)
    fix p t assume a: "map_of (tickets s) p = Some t"
    from tickets_okD [OF T a]
    show "pnr t = p \<and> train t < length (heap s @ [Train_init no nm src dst seats]) \<and>
       (\<exists>k\<le>pnr_counter s. p = str k) \<and>
       (status t = Waiting \<longrightarrow>
          p \<in> set (waiting_list ((heap s @ [Train_init no nm src dst seats]) ! train t)))"
      by (simp add: nth_append)
  qed
  have q: "queues_ok ?s'"
    unfolding queues_ok_def tk h
  proof (intro allI impI)
    fix a assume a: "a < length (heap s @ [Train_init no nm src dst seats])"
    show "distinct (waiting_list ((heap s @ [Train_init no nm src dst seats]) ! a)) \<and>
       (\<forall>p\<in>set (waiting_list ((heap s @ [Train_init no nm src dst seats]) ! a)).
          \<exists>t. map_of (tickets s) p = Some t \<and> train t = a \<and> status t \<noteq> Confirmed \<and>
              available_seats ((heap s @ [Train_init no nm src dst seats]) ! a)
                < int (length (passengers t)))"
    proof (cases "a < length (heap s)")
      case True
      with queues_okD [OF Q True] show ?thesis by (simp add: nth_append)
    next
      case False
      with a have "a = length (heap s)" by simp
      then show ?thesis by (simp add: Train_init_def)
    qed
  qed
  have r: "trains_ok ?s'"
    using R unfolding trains_ok_def tr h by (auto simp: less_Suc_eq)
  from t q r show ?thesis by (simp add: consistent_def)
qed


lemma fresh_pnr:
  assumes "tickets_ok s"
  shows "map_of (tickets s) (str (pnr_counter s + 1)) = None"
proof (cases "map_of (tickets s) (str (pnr_counter s + 1))")
  case None
  then show ?thesis .
next
  case (Some t)
  from tickets_okD(3) [OF assms Some]
  obtain k where "k \<le> pnr_counter s" "str (pnr_counter s + 1) = str k" by blast
  then show ?thesis using str_inj by fastforce
qed

lemma consistent_book_confirmed:
  assumes W: "consistent s" and tr: "map_of (trains s) no = Some a" and n: "0 < n"
    and av: "n \<le> available_seats (heap s ! a)"
  shows "consistent (snd (book_ticket s no (Some n) inp))"
proof -
  let ?P = "str (pnr_counter s + 1)"
  let ?t = "\<lparr>pnr = ?P, train = a, passengers = map inp [0..<nat n], status = Confirmed\<rparr>"
  let ?h = "(heap s)[a := (heap s ! a)\<lparr>available_seats := available_seats (heap s ! a) - n\<rparr>]"
  let ?s' = "snd (book_ticket s no (Some n) inp)"
  from W have T: "tickets_ok s" and Q: "queues_ok s" and R: "trains_ok s"
    by (simp_all add: consistent_def)
  from R tr have a: "a < length (heap s)" by (simp add: trains_ok_def)
  have h: "heap ?s' = ?h" and tk: "map_of (tickets ?s') = (map_of (tickets s))(?P \<mapsto> ?t)"
    and c: "pnr_counter ?s' = pnr_counter s + 1" and ts: "trains ?s' = trains s"
    by (simp_all add: book_ticket_confirmed [OF tr n av] map_of_update)
  have wl: "waiting_list (?h ! b) = waiting_list (heap s ! b)" for b
    using a by (cases "a = b") simp_all
  have avl: "available_seats (?h ! b) \<le> available_seats (heap s ! b)" for b
    using a n by (cases "a = b") simp_all
  have fresh: "map_of (tickets s) ?P = None" by (rule fresh_pnr [OF T])
  have t: "tickets_ok ?s'"
    unfolding tickets_ok_def
  proof (intro allI impI)
    fix p t assume pt: "map_of (tickets ?s') p = Some t"
    show "pnr t = p \<and> train t < length (heap ?s') \<and> (\<exists>k\<le>pnr_counter ?s'. p = str k) \<and>
       (status t = Waiting \<longrightarrow> p \<in> set (waiting_list (heap ?s' ! train t)))"
    proof (cases "p = ?P")
      case True
      with pt tk have "t = ?t" by simp
      with True a show ?thesis unfolding h c by auto
    next
      case False
      with pt tk have old: "map_of (tickets s) p = Some t" by simp
      from tickets_okD(3) [OF T old] obtain k where "k \<le> pnr_counter s" "p = str k"
        by blast
      then have "k \<le> pnr_counter s + 1 \<and> p = str k" by simp
      then have "\<exists>k\<le>pnr_counter s + 1. p = str k" by blast
      with tickets_okD(1,2,4) [OF T old] show ?thesis
        unfolding h c wl by simp
    qed
  qed
  have q: "queues_ok ?s'"
    unfolding queues_ok_def
  proof (intro allI impI)
    fix b assume "b < length (heap ?s')"
    then have b: "b < length (heap s)" by (simp add: h)
    have "\<exists>t. map_of (tickets ?s') p = Some t \<and> train t = b \<and> status t \<noteq> Confirmed \<and>
             available_seats (heap ?s' ! b) < int (length (passengers t))"
      if "p \<in> set (waiting_list (heap s ! b))" for p
    proof -
      from queues_okD(2) [OF Q b that] obtain t where
        o: "map_of (tickets s) p = Some t" "train t = b" "status t \<noteq> Confirmed"
           "available_seats (heap s ! b) < int (length (passengers t))" by blast
      with fresh have "p \<noteq> ?P" by auto
      with o avl [of b] show ?thesis unfolding tk h by auto
    qed
    with queues_okD(1) [OF Q b]
    show "distinct (waiting_list (heap ?s' ! b)) \<and>
       (\<forall>p\<in>set (waiting_list (heap ?s' ! b)).
          \<exists>t. map_of (tickets ?s') p = Some t \<and> train t = b \<and> status t \<noteq> Confirmed \<and>
              available_seats (heap ?s' ! b) < int (length (passengers t)))"
      unfolding h wl by blast
  qed
  have r: "trains_ok ?s'"
    using R unfolding trains_ok_def ts h by simp
  from t q r show ?thesis by (simp add: consistent_def)
qed


lemma consistent_book_waiting:
  assumes W: "consistent s" and tr: "map_of (trains s) no = Some a" and n: "0 < n"
    and av: "available_seats (heap s ! a) < n"
  shows "consistent (snd (book_ticket s no (Some n) inp))"
proof -
  let ?P = "str (pnr_counter s + 1)"
  let ?t = "\<lparr>pnr = ?P, train = a, passengers = map inp [0..<nat n], status = Waiting\<rparr>"
  let ?h = "(heap s)[a := (heap s ! a)\<lparr>waiting_list := waiting_list (heap s ! a) @ [?P]\<rparr>]"
  let ?s' = "snd (book_ticket s no (Some n) inp)"
  from W have T: "tickets_ok s" and Q: "queues_ok s" and R: "trains_ok s"
    by (simp_all add: consistent_def)
  from R tr have a: "a < length (heap s)" by (simp add: trains_ok_def)
  have h: "heap ?s' = ?h" and tk: "map_of (tickets ?s') = (map_of (tickets s))(?P \<mapsto> ?t)"
    and c: "pnr_counter ?s' = pnr_counter s + 1" and ts: "trains ?s' = trains s"
    by (simp_all add: book_ticket_waiting [OF tr n av] map_of_update)
  have wl: "waiting_list (?h ! b) =
      (if b = a then waiting_list (heap s ! a) @ [?P] else waiting_list (heap s ! b))" for b
    using a by (cases "a = b") simp_all
  have avl: "available_seats (?h ! b) = available_seats (heap s ! b)" for b
    using a by (cases "a = b") simp_all
  have sub: "set (waiting_list (heap s ! b)) \<subseteq> set (waiting_list (?h ! b))" for b
    using a by (cases "a = b") auto
  have fresh: "map_of (tickets s) ?P = None" by (rule fresh_pnr [OF T])
  have notin: "?P \<notin> set (waiting_list (heap s ! a))"
    using queues_okD(2) [OF Q a, of ?P] fresh by auto
  have t: "tickets_ok ?s'"
    unfolding tickets_ok_def
  proof (intro allI impI)
    fix p t assume pt: "map_of (tickets ?s') p = Some t"
    show "pnr t = p \<and> train t < length (heap ?s') \<and> (\<exists>k\<le>pnr_counter ?s'. p = str k) \<and>
       (status t = Waiting \<longrightarrow> p \<in> set (waiting_list (heap ?s' ! train t)))"
    proof (cases "p = ?P")
      case True
      with pt tk have "t = ?t" by simp
      with True a show ?thesis unfolding h c wl by auto
    next
      case False
      with pt tk have old: "map_of (tickets s) p = Some t" by simp
      from tickets_okD(3) [OF T old] obtain k where "k \<le> pnr_counter s" "p = str k"
        by blast
      then have "k \<le> pnr_counter s + 1 \<and> p = str k" by simp
      then have "\<exists>k\<le>pnr_counter s + 1. p = str k" by blast
      moreover have "status t = Waiting \<longrightarrow> p \<in> set (waiting_list (?h ! train t))"
      proof
        assume "status t = Waiting"
        from tickets_okD(4) [OF T old this]
        show "p \<in> set (waiting_list (?h ! train t))"
          using sub by blast
      qed
      ultimately show ?thesis
        using tickets_okD(1,2) [OF T old] unfolding h c by simp
    qed
  qed
  have q: "queues_ok ?s'"
    unfolding queues_ok_def
  proof (intro allI impI)
    fix b assume "b < length (heap ?s')"
    then have b: "b < length (heap s)" by (simp add: h)
    have old: "\<exists>t. map_of (tickets ?s') p = Some t \<and> train t = b \<and> status t \<noteq> Confirmed \<and>
             available_seats (heap ?s' ! b) < int (length (passengers t))"
      if "p \<in> set (waiting_list (heap s ! b))" for p
    proof -
      from queues_okD(2) [OF Q b that] obtain t where
        o: "map_of (tickets s) p = Some t" "train t = b" "status t \<noteq> Confirmed"
           "available_seats (heap s ! b) < int (length (passengers t))" by blast
      with fresh have "p \<noteq> ?P" by auto
      with o show ?thesis unfolding tk h avl by auto
    qed
    have new: "\<exists>t. map_of (tickets ?s') ?P = Some t \<and> train t = a \<and> status t \<noteq> Confirmed \<and>
             available_seats (heap ?s' ! a) < int (length (passengers t))"
      using av n unfolding tk h avl by simp
    show "distinct (waiting_list (heap ?s' ! b)) \<and>
       (\<forall>p\<in>set (waiting_list (heap ?s' ! b)).
          \<exists>t. map_of (tickets ?s') p = Some t \<and> train t = b \<and> status t \<noteq> Confirmed \<and>
              available_seats (heap ?s' ! b) < int (length (passengers t)))"
    proof (cases "b = a")
      case True
      have "distinct (waiting_list (heap ?s' ! b))"
        using queues_okD(1) [OF Q a] notin True unfolding h wl by simp
      moreover have "set (waiting_list (heap ?s' ! b)) = insert ?P (set (waiting_list (heap s ! b)))"
        using True unfolding h wl by simp
      ultimately show ?thesis using old new True by simp
    next
      case False
      then have "waiting_list (heap ?s' ! b) = waiting_list (heap s ! b)"
        unfolding h wl by simp
      with queues_okD(1) [OF Q b] old show ?thesis by simp
    qed
  qed
  have r: "trains_ok ?s'"
    using R unfolding trains_ok_def ts h by simp
  from t q r show ?thesis by (simp add: consistent_def)
qed

lemma consistent_BookTicket:
  assumes "consistent s"
  shows "consistent (step s (BookTicket no num inp))"
proof (cases "map_of (trains s) no = None \<or> num = None \<or> (\<exists>n. num = Some n \<and> n \<le> 0)")
  case True
  from book_ticket_rejected [OF True] assms show ?thesis by simp
next
  case False
  from False have "map_of (trains s) no \<noteq> None" and "num \<noteq> None" by simp_all
  then obtain a n where tr: "map_of (trains s) no = Some a" and num: "num = Some n"
    by blast
  from False num have n: "0 < n" by simp
  show ?thesis
  proof (cases "n \<le> available_seats (heap s ! a)")
    case True
    from consistent_book_confirmed [OF assms tr n True] num show ?thesis by simp
  next
    case False
    then have "available_seats (heap s ! a) < n" by simp
    from consistent_book_waiting [OF assms tr n this] num show ?thesis by simp
  qed
qed

text \<open>In a well-formed state the head of a waiting list never fits.\<close>

lemma cancel_ticket_consistent:
  assumes W: "consistent s" and pt: "map_of (tickets s) p = Some t" and st: "status t \<noteq> Cancelled"
  shows "cancel_ticket s p =
     (Inr None, s\<lparr>tickets := AList.update p (t\<lparr>status := Cancelled\<rparr>) (tickets s)\<rparr>)"
proof -
  let ?s1 = "s\<lparr>tickets := AList.update p (t\<lparr>status := Cancelled\<rparr>) (tickets s)\<rparr>"
  from W have T: "tickets_ok s" and Q: "queues_ok s" by (simp_all add: consistent_def)
  from tickets_okD(2) [OF T pt] have a: "train t < length (heap s)" .
  have c: "cancel_ticket s p = confirm_waiting_head ?s1 (train t)"
    using pt st by (simp add: cancel_ticket_def mark_cancelled_eq)
  have "confirm_waiting_head ?s1 (train t) = (Inr None, ?s1)"
  proof (cases "waiting_list (heap s ! train t)")
    case Nil
    then show ?thesis by (simp add: confirm_waiting_head_def)
  next
    case (Cons h rest)
    then have "h \<in> set (waiting_list (heap s ! train t))" by simp
    from queues_okD(2) [OF Q a this] obtain th where
      th: "map_of (tickets s) h = Some th"
        "available_seats (heap s ! train t) < int (length (passengers th))" by blast
    show ?thesis
    proof (cases "h = p")
      case True
      with th pt Cons show ?thesis
        by (simp add: confirm_waiting_head_def map_of_update)
    next
      case False
      with th Cons show ?thesis
        by (simp add: confirm_waiting_head_def map_of_update)
    qed
  qed
  with c show ?thesis by simp
qed


lemma consistent_CancelTicket:
  assumes W: "consistent s"
  shows "consistent (step s (CancelTicket p))"
proof (cases "map_of (tickets s) p")
  case None
  with W show ?thesis by (simp add: cancel_ticket_def)
next
  case (Some t)
  show ?thesis
  proof (cases "status t = Cancelled")
    case True
    with Some W show ?thesis by (simp add: cancel_ticket_def)
  next
    case False
    let ?t = "t\<lparr>status := Cancelled\<rparr>"
    let ?s' = "s\<lparr>tickets := AList.update p ?t (tickets s)\<rparr>"
    from W have T: "tickets_ok s" and Q: "queues_ok s" and R: "trains_ok s"
      by (simp_all add: consistent_def)
    have st: "step s (CancelTicket p) = ?s'"
      by (simp add: cancel_ticket_consistent [OF W Some False])
    have tk: "map_of (tickets ?s') = (map_of (tickets s))(p \<mapsto> ?t)"
      by (simp add: map_of_update)
    have t: "tickets_ok ?s'"
      unfolding tickets_ok_def
    proof (intro allI impI)
      fix q u assume qu: "map_of (tickets ?s') q = Some u"
      show "pnr u = q \<and> train u < length (heap ?s') \<and> (\<exists>k\<le>pnr_counter ?s'. q = str k) \<and>
         (status u = Waiting \<longrightarrow> q \<in> set (waiting_list (heap ?s' ! train u)))"
      proof (cases "q = p")
        case True
        with qu tk have "u = ?t" by simp
        with True tickets_okD(1,2,3) [OF T Some] show ?thesis by simp
      next
        case False
        with qu tk have "map_of (tickets s) q = Some u" by simp
        from tickets_okD [OF T this] show ?thesis by simp
      qed
    qed
    have q: "queues_ok ?s'"
      unfolding queues_ok_def
    proof (intro allI impI)
      fix b assume "b < length (heap ?s')"
      then have b: "b < length (heap s)" by simp
      have "\<exists>u. map_of (tickets ?s') q = Some u \<and> train u = b \<and> status u \<noteq> Confirmed \<and>
             available_seats (heap ?s' ! b) < int (length (passengers u))"
        if "q \<in> set (waiting_list (heap s ! b))" for q
      proof -
        from queues_okD(2) [OF Q b that] obtain u where
          o: "map_of (tickets s) q = Some u" "train u = b" "status u \<noteq> Confirmed"
             "available_seats (heap s ! b) < int (length (passengers u))" by blast
        show ?thesis
        proof (cases "q = p")
          case True
          with o Some have "u = t" by simp
          with o True show ?thesis unfolding tk by simp
        next
          case False
          with o show ?thesis unfolding tk by simp
        qed
      qed
      with queues_okD(1) [OF Q b]
      show "distinct (waiting_list (heap ?s' ! b)) \<and>
         (\<forall>q\<in>set (waiting_list (heap ?s' ! b)).
            \<exists>u. map_of (tickets ?s') q = Some u \<and> train u = b \<and> status u \<noteq> Confirmed \<and>
                available_seats (heap ?s' ! b) < int (length (passengers u)))"
        by simp
    qed
    have r: "trains_ok ?s'"
      using R unfolding trains_ok_def by simp
    from t q r st show ?thesis by (simp add: consistent_def)
  qed
qed

lemma consistent_step:
  assumes "consistent s"
  shows "consistent (step s x)"
proof (cases x)
  case (AddTrain no nm src dst seats)
  with consistent_AddTrain [OF assms] show ?thesis by simp
next
  case (BookTicket no num inp)
  with consistent_BookTicket [OF assms] show ?thesis by simp
next
  case (CancelTicket p)
  with consistent_CancelTicket [OF assms] show ?thesis by simp
next
  case (CheckStatus p)
  with assms show ?thesis by simp
qed

lemma consistent_exec:
  assumes "consistent s"
  shows "consistent (exec ops s)"
  using assms unfolding exec_def
  by (induction ops arbitrary: s) (simp_all add: consistent_step del: step.simps)

lemma consistent_reachable: "consistent (exec ops (ReservationSystem_init seed))"
  by (rule consistent_exec [OF consistent_init])

section \<open>Rejected cancellations\<close>

text \<open>
  Claim C7. Cancelling a PNR that is not in the ticket dictionary is rejected with the
  invalid-PNR report (the spec's \<^verbatim>\<open>TicketNotFoundError\<close>), cancelling a ticket whose
  status is already \<open>Cancelled\<close> is rejected with the already-cancelled report (the spec's
  \<^verbatim>\<open>AlreadyCancelledError\<close>), and in both cases the state returned is the state given:
  no train, ticket or waiting list has changed.
\<close>

theorem cancel_ticket_rejections:
  "(map_of (tickets s) p = None \<longrightarrow> cancel_ticket s p = (Inl InvalidPNR, s)) \<and>
   (\<forall>t. map_of (tickets s) p = Some t \<and> status t = Cancelled \<longrightarrow>
        cancel_ticket s p = (Inl AlreadyCancelled, s))"
  by (simp add: cancel_ticket_def)

theorem cancel_ticket_rejections_witness:
  "map_of (tickets full_train) ''7777777'' = None \<and>
   cancel_ticket full_train ''7777777'' = (Inl InvalidPNR, full_train) \<and>
   map_of (tickets (step full_train (CancelTicket ''1000001''))) ''1000001'' =
     Some \<lparr>pnr = ''1000001'', train = 0, passengers = [pax 0, pax 1], status = Cancelled\<rparr> \<and>
   cancel_ticket (step full_train (CancelTicket ''1000001'')) ''1000001'' =
     (Inl AlreadyCancelled, step full_train (CancelTicket ''1000001''))"
proof -
  have a: "map_of (tickets full_train) ''7777777'' = None"
    by (simp add: full_train_def run_defs)
  have b: "map_of (tickets (step full_train (CancelTicket ''1000001''))) ''1000001'' =
     Some \<lparr>pnr = ''1000001'', train = 0, passengers = [pax 0, pax 1], status = Cancelled\<rparr>"
    by (simp add: full_train_def run_defs)
  from a b
    cancel_ticket_rejections [of full_train "''7777777''"]
    cancel_ticket_rejections [of "step full_train (CancelTicket ''1000001'')" "''1000001''"]
  show ?thesis by simp
qed

section \<open>Cancelling a confirmed or a waiting ticket\<close>

text \<open>
  Claim C1 says that available seats plus the seats of the confirmed tickets of a train
  always equal its capacity. The balance holds in \<open>full_train\<close> (two seats, one confirmed
  ticket for two passengers). After that ticket is cancelled the train has capacity 2, no
  available seat and no confirmed ticket: the guard of the seat credit reads the status
  after it has been overwritten with \<open>Cancelled\<close>, so the credit never runs.
\<close>

theorem cancel_breaks_seat_balance:
  "map_of (trains full_train) ''12028'' = Some 0 \<and>
   available_seats (heap full_train ! 0) + confirmed_seats full_train 0
     = total_seats (heap full_train ! 0) \<and>
   total_seats (heap (step full_train (CancelTicket ''1000001'')) ! 0) = 2 \<and>
   available_seats (heap (step full_train (CancelTicket ''1000001'')) ! 0) = 0 \<and>
   confirmed_seats (step full_train (CancelTicket ''1000001'')) 0 = 0"
  by (simp add: full_train_def confirmed_seats_def run_defs)

text \<open>
  Claim C2 says that cancelling a confirmed ticket with \<open>n\<close> passengers adds \<open>n\<close> to the
  train's available seats before the head of the waiting list is looked at. In
  \<open>full_train_queued\<close> the confirmed ticket \<^verbatim>\<open>1000001\<close> has two passengers and the train
  has no seat available. After the first part of the cancellation the train still has no
  seat available, and after the whole cancellation it has none either; the waiting ticket
  \<^verbatim>\<open>1000002\<close> for one passenger is not confirmed.
\<close>

theorem cancel_confirmed_credits_nothing:
  "map_of (tickets full_train_queued) ''1000001'' =
     Some \<lparr>pnr = ''1000001'', train = 0, passengers = [pax 0, pax 1], status = Confirmed\<rparr> \<and>
   available_seats (heap full_train_queued ! 0) = 0 \<and>
   available_seats (heap (mark_cancelled full_train_queued ''1000001''
       \<lparr>pnr = ''1000001'', train = 0, passengers = [pax 0, pax 1], status = Confirmed\<rparr>) ! 0) = 0 \<and>
   fst (cancel_ticket full_train_queued ''1000001'') = Inr None \<and>
   available_seats (heap (snd (cancel_ticket full_train_queued ''1000001'')) ! 0) = 0 \<and>
   waiting_list (heap (snd (cancel_ticket full_train_queued ''1000001'')) ! 0) = [''1000002'']"
  by (simp add: full_train_queued_def full_train_def run_defs)

text \<open>
  Claim C4 says that every PNR in a waiting list belongs to a ticket whose status is
  \<open>Waiting\<close>, and that cancelling a waiting ticket takes its PNR out of the list. In
  \<open>small_train_queued\<close> the ticket \<^verbatim>\<open>1000001\<close> is waiting and is the only entry of its
  train's waiting list. After it is cancelled its status is \<open>Cancelled\<close> and its PNR is
  still in the list.
\<close>

theorem cancelled_ticket_stays_queued:
  "map_of (tickets small_train_queued) ''1000001'' =
     Some \<lparr>pnr = ''1000001'', train = 0, passengers = [pax 0, pax 1], status = Waiting\<rparr> \<and>
   waiting_list (heap small_train_queued ! 0) = [''1000001''] \<and>
   fst (cancel_ticket small_train_queued ''1000001'') = Inr None \<and>
   map_of (tickets (snd (cancel_ticket small_train_queued ''1000001''))) ''1000001'' =
     Some \<lparr>pnr = ''1000001'', train = 0, passengers = [pax 0, pax 1], status = Cancelled\<rparr> \<and>
   waiting_list (heap (snd (cancel_ticket small_train_queued ''1000001'')) ! 0) = [''1000001'']"
  by (simp add: small_train_queued_def run_defs)

section \<open>Adding a train under a number already in use\<close>

text \<open>
  Claim C8, as stated: adding a train whose number is already in the directory fails and
  leaves the existing record as it was. The source has no such check. In \<open>full_train\<close> the
  record filed under \<^verbatim>\<open>12028\<close> has no seat left; adding a train with that number again
  succeeds, and the record filed under the number afterwards has two seats available.
\<close>

theorem add_train_duplicate_counterexample:
  "map_option available_seats (train_of full_train ''12028'') = Some 0 \<and>
   map_option available_seats
     (train_of (step full_train (AddTrain ''12028'' ''Shatabdi Express'' ''Bengaluru'' ''Chennai'' 2))
        ''12028'') = Some 2"
  by (simp add: full_train_def train_of_def run_defs)


text \<open>
  Claim C8, amended: adding a train never fails. The directory entry under the train's
  number is set to the newly constructed record, whose available seats equal its capacity
  and whose waiting list is empty; the train objects constructed before (to which the
  tickets booked so far refer) and the stored tickets are not modified.
\<close>

theorem add_train_overwrites:
  "train_of (step s (AddTrain no nm src dst seats)) no = Some (Train_init no nm src dst seats) \<and>
   take (length (heap s)) (heap (step s (AddTrain no nm src dst seats))) = heap s \<and>
   tickets (step s (AddTrain no nm src dst seats)) = tickets s"
  by (simp add: step_AddTrain train_of_def map_of_update del: step.simps)


section \<open>Cancelled tickets\<close>

subsection \<open>Tickets already stored are not touched by later bookings\<close>

lemma book_ticket_keeps:
  assumes W: "consistent s" and pt: "map_of (tickets s) p = Some t"
  shows "map_of (tickets (snd (book_ticket s no num inp))) p = Some t"
proof (cases "map_of (trains s) no = None \<or> num = None \<or> (\<exists>n. num = Some n \<and> n \<le> 0)")
  case True
  from book_ticket_rejected [OF True] pt show ?thesis by simp
next
  case False
  from False have "map_of (trains s) no \<noteq> None" and "num \<noteq> None" by simp_all
  then obtain a n where tr: "map_of (trains s) no = Some a" and num: "num = Some n"
    by blast
  from False num have n: "0 < n" by simp
  from W have T: "tickets_ok s" by (simp add: consistent_def)
  from fresh_pnr [OF T] pt have ne: "p \<noteq> str (pnr_counter s + 1)" by auto
  show ?thesis
  proof (cases "n \<le> available_seats (heap s ! a)")
    case True
    from ne pt show ?thesis
      unfolding num by (simp add: book_ticket_confirmed [OF tr n True] map_of_update)
  next
    case False
    then have lt: "available_seats (heap s ! a) < n" by simp
    from ne pt show ?thesis
      unfolding num by (simp add: book_ticket_waiting [OF tr n lt] map_of_update)
  qed
qed

lemma cancelled_step:
  assumes W: "consistent s" and pt: "map_of (tickets s) p = Some t" and c: "status t = Cancelled"
  shows "map_of (tickets (step s x)) p = Some t"
proof (cases x)
  case (AddTrain no nm src dst seats)
  with pt show ?thesis by (simp add: step_AddTrain del: step.simps)
next
  case (BookTicket no num inp)
  with book_ticket_keeps [OF W pt] show ?thesis by simp
next
  case (CancelTicket q)
  show ?thesis
  proof (cases "map_of (tickets s) q")
    case None
    with pt CancelTicket show ?thesis by (simp add: cancel_ticket_def)
  next
    case (Some u)
    show ?thesis
    proof (cases "status u = Cancelled")
      case True
      with Some pt CancelTicket show ?thesis by (simp add: cancel_ticket_def)
    next
      case False
      with Some pt c have "q \<noteq> p" by auto
      with pt CancelTicket show ?thesis
        by (simp add: cancel_ticket_consistent [OF W Some False] map_of_update)
    qed
  qed
next
  case (CheckStatus q)
  with pt show ?thesis by simp
qed

lemma cancelled_exec:
  assumes "consistent s" "map_of (tickets s) p = Some t" "status t = Cancelled"
  shows "map_of (tickets (exec ops s)) p = Some t"
  using assms unfolding exec_def
proof (induction ops arbitrary: s)
  case Nil
  then show ?case by simp
next
  case (Cons x ops)
  from Cons.prems have "consistent (step s x)" "map_of (tickets (step s x)) p = Some t"
    by (simp_all add: consistent_step cancelled_step del: step.simps)
  from Cons.IH [OF this Cons.prems(3)] show ?case by simp
qed


text \<open>
  Claim C3. In every state reached from a fresh system, a ticket whose status is
  \<open>Cancelled\<close> is left exactly as it is by every further operation, and so by every
  further sequence of operations: its status stays \<open>Cancelled\<close>.
\<close>

theorem cancelled_is_terminal:
  assumes "map_of (tickets (exec ops (ReservationSystem_init seed))) p = Some t"
    and "status t = Cancelled"
  shows "map_of (tickets (exec later (exec ops (ReservationSystem_init seed)))) p = Some t"
  using cancelled_exec [OF consistent_reachable assms] .



text \<open>
  A run in which the cancelled ticket is the head of its train's waiting list while a
  confirmed ticket of the same train is cancelled afterwards.
\<close>

theorem cancelled_is_terminal_witness:
  "map_of (tickets (exec [AddTrain ''12028'' ''Shatabdi Express'' ''Bengaluru'' ''Chennai'' 2,
                          BookTicket ''12028'' (Some 3) pax,
                          BookTicket ''12028'' (Some 2) pax,
                          CancelTicket ''1000001''] (ReservationSystem_init 1000000)))
     ''1000001'' =
     Some \<lparr>pnr = ''1000001'', train = 0, passengers = [pax 0, pax 1, pax 2], status = Cancelled\<rparr> \<and>
   status \<lparr>pnr = ''1000001'', train = 0, passengers = [pax 0, pax 1, pax 2], status = Cancelled\<rparr>
     = Cancelled \<and>
   map_of (tickets (exec [CancelTicket ''1000002'', BookTicket ''12028'' (Some 1) pax,
                          CancelTicket ''1000001'']
                     (exec [AddTrain ''12028'' ''Shatabdi Express'' ''Bengaluru'' ''Chennai'' 2,
                            BookTicket ''12028'' (Some 3) pax,
                            BookTicket ''12028'' (Some 2) pax,
                            CancelTicket ''1000001''] (ReservationSystem_init 1000000))))
     ''1000001'' =
     Some \<lparr>pnr = ''1000001'', train = 0, passengers = [pax 0, pax 1, pax 2], status = Cancelled\<rparr>"
proof -
  let ?ops = "[AddTrain ''12028'' ''Shatabdi Express'' ''Bengaluru'' ''Chennai'' 2,
               BookTicket ''12028'' (Some 3) pax,
               BookTicket ''12028'' (Some 2) pax,
               CancelTicket ''1000001'']"
  let ?t = "\<lparr>pnr = ''1000001'', train = 0, passengers = [pax 0, pax 1, pax 2], status = Cancelled\<rparr>"
  have a: "map_of (tickets (exec ?ops (ReservationSystem_init 1000000))) ''1000001'' = Some ?t"
    by (simp add: run_defs)
  have b: "status ?t = Cancelled" by simp
  from a b cancelled_is_terminal [OF a b] show ?thesis by blast
qed


section \<open>Waiting tickets and their position\<close>


lemma index_Some:
  "x \<in> set xs \<Longrightarrow> \<exists>i. index xs x = Some i \<and> i < length xs \<and> xs ! i = x"
proof (induction xs)
  case Nil
  then show ?case by simp
next
  case (Cons y ys)
  show ?case
  proof (cases "y = x")
    case True
    then show ?thesis by simp
  next
    case False
    with Cons.prems have "x \<in> set ys" by simp
    from Cons.IH [OF this] obtain i where "index ys x = Some i" "i < length ys" "ys ! i = x"
      by blast
    with False show ?thesis by simp
  qed
qed


text \<open>
  Claim C10. In every state reached from a fresh system, the PNR of every ticket whose
  status is \<open>Waiting\<close> is in the waiting list of the ticket's train, so the position
  computed by \<^verbatim>\<open>check_pnr_status\<close> (index in the list plus one) is defined:
  \<^verbatim>\<open>list.index\<close> does not raise.
\<close>

theorem waiting_position_defined:
  assumes "map_of (tickets (exec ops (ReservationSystem_init seed))) p = Some t"
    and "status t = Waiting"
  shows "p \<in> set (waiting_list (heap (exec ops (ReservationSystem_init seed)) ! train t)) \<and>
    (\<exists>i. i < length (waiting_list (heap (exec ops (ReservationSystem_init seed)) ! train t)) \<and>
         waiting_list (heap (exec ops (ReservationSystem_init seed)) ! train t) ! i = p \<and>
         check_pnr_status (exec ops (ReservationSystem_init seed)) p = Inr (t, Some (i + 1)))"
proof -
  let ?s = "exec ops (ReservationSystem_init seed)"
  have "tickets_ok ?s" using consistent_reachable by (simp add: consistent_def)
  from tickets_okD(4) [OF this assms]
  have q: "p \<in> set (waiting_list (heap ?s ! train t))" .
  from index_Some [OF q] obtain i where
    i: "index (waiting_list (heap ?s ! train t)) p = Some i"
       "i < length (waiting_list (heap ?s ! train t))"
       "waiting_list (heap ?s ! train t) ! i = p" by blast
  from assms i have "check_pnr_status ?s p = Inr (t, Some (i + 1))"
    by (simp add: check_pnr_status_def)
  with q i show ?thesis by blast
qed

theorem waiting_position_defined_witness:
  "map_of (tickets (exec [AddTrain ''12028'' ''Shatabdi Express'' ''Bengaluru'' ''Chennai'' 2,
                          BookTicket ''12028'' (Some 3) pax,
                          BookTicket ''12028'' (Some 4) pax,
                          CancelTicket ''1000001''] (ReservationSystem_init 1000000)))
     ''1000002'' =
     Some \<lparr>pnr = ''1000002'', train = 0, passengers = [pax 0, pax 1, pax 2, pax 3],
           status = Waiting\<rparr> \<and>
   status \<lparr>pnr = ''1000002'', train = 0, passengers = [pax 0, pax 1, pax 2, pax 3],
           status = Waiting\<rparr> = Waiting \<and>
   check_pnr_status (exec [AddTrain ''12028'' ''Shatabdi Express'' ''Bengaluru'' ''Chennai'' 2,
                          BookTicket ''12028'' (Some 3) pax,
                          BookTicket ''12028'' (Some 4) pax,
                          CancelTicket ''1000001''] (ReservationSystem_init 1000000))
     ''1000002'' \<noteq> Inl ValueError"
proof -
  let ?ops = "[AddTrain ''12028'' ''Shatabdi Express'' ''Bengaluru'' ''Chennai'' 2,
               BookTicket ''12028'' (Some 3) pax,
               BookTicket ''12028'' (Some 4) pax,
               CancelTicket ''1000001'']"
  let ?t = "\<lparr>pnr = ''1000002'', train = 0, passengers = [pax 0, pax 1, pax 2, pax 3],
           status = Waiting\<rparr>"
  have a: "map_of (tickets (exec ?ops (ReservationSystem_init 1000000))) ''1000002'' = Some ?t"
    by (simp add: run_defs)
  have b: "status ?t = Waiting" by simp
  from waiting_position_defined [OF a b] obtain i where
    "check_pnr_status (exec ?ops (ReservationSystem_init 1000000)) ''1000002'' =
       Inr (?t, Some (i + 1))" by blast
  then have "check_pnr_status (exec ?ops (ReservationSystem_init 1000000)) ''1000002''
      \<noteq> Inl ValueError" by simp
  with a b show ?thesis by blast
qed



section \<open>PNR generation\<close>


lemma book_ticket_issues:
  assumes "book_ticket s no num inp = (Inr t, s')"
  shows "pnr t = str (pnr_counter s + 1)" "pnr_counter s' = pnr_counter s + 1"
  using assms
  by (auto simp: book_ticket_def Ticket_init_def upd_train_def Let_def
           split: option.splits if_splits)

lemma pnr_counter_book: "pnr_counter s \<le> pnr_counter (snd (book_ticket s no num inp))"
  by (auto simp: book_ticket_def Ticket_init_def upd_train_def Let_def
           split: option.splits if_splits)

lemma pnr_counter_confirm:
  "pnr_counter (snd (confirm_waiting_head s a)) = pnr_counter s"
  by (auto simp: confirm_waiting_head_def upd_train_def split: list.splits option.splits)

lemma pnr_counter_cancel: "pnr_counter (snd (cancel_ticket s p)) = pnr_counter s"
  by (auto simp: cancel_ticket_def pnr_counter_confirm mark_cancelled_eq split: option.splits)

lemma pnr_counter_step: "pnr_counter s \<le> pnr_counter (step s x)"
proof (cases x)
  case (AddTrain no nm src dst seats)
  then show ?thesis by (simp add: step_AddTrain del: step.simps)
next
  case (BookTicket no num inp)
  then show ?thesis by (simp add: pnr_counter_book)
next
  case (CancelTicket p)
  then show ?thesis by (simp add: pnr_counter_cancel)
next
  case (CheckStatus p)
  then show ?thesis by simp
qed

lemma pnr_counter_exec: "pnr_counter s \<le> pnr_counter (exec ops s)"
  unfolding exec_def
proof (induction ops arbitrary: s)
  case Nil
  show ?case by simp
next
  case (Cons x ops)
  have "pnr_counter s \<le> pnr_counter (step s x)" by (rule pnr_counter_step)
  also have "\<dots> \<le> pnr_counter (foldl step (step s x) ops)" by (rule Cons.IH)
  finally show ?case by simp
qed


text \<open>
  Claim C9. Each ticket creation increments the counter and returns its decimal string.
  Of any two tickets created in one process, with any operations in between, the later
  one's PNR read as a number is strictly greater than the earlier one's, and the two PNRs
  differ.
\<close>

theorem pnr_strictly_increasing:
  assumes "book_ticket s no num inp = (Inr t1, s1)"
    and "book_ticket (exec ops s1) no' num' inp' = (Inr t2, s2)"
  shows "pnr t1 = str (pnr_counter s + 1) \<and> pnr_counter s1 = pnr_counter s + 1 \<and>
    pnr t2 = str (pnr_counter (exec ops s1) + 1) \<and> pnr_counter s2 = pnr_counter (exec ops s1) + 1 \<and>
    str_value (pnr t1) < str_value (pnr t2) \<and> pnr t1 \<noteq> pnr t2"
proof -
  from book_ticket_issues [OF assms(1)]
  have 1: "pnr t1 = str (pnr_counter s + 1)" "pnr_counter s1 = pnr_counter s + 1" .
  from book_ticket_issues [OF assms(2)]
  have 2: "pnr t2 = str (pnr_counter (exec ops s1) + 1)"
    "pnr_counter s2 = pnr_counter (exec ops s1) + 1" .
  have "pnr_counter s1 \<le> pnr_counter (exec ops s1)" by (rule pnr_counter_exec)
  with 1 2 have lt: "str_value (pnr t1) < str_value (pnr t2)"
    by (simp add: str_value_str)
  then have "pnr t1 \<noteq> pnr t2" by auto
  with 1 2 lt show ?thesis by simp
qed

theorem pnr_strictly_increasing_witness:
  "book_ticket full_train ''12028'' (Some 1) pax =
     (Inr \<lparr>pnr = ''1000002'', train = 0, passengers = [pax 0], status = Waiting\<rparr>,
      full_train_queued) \<and>
   book_ticket (exec [CancelTicket ''1000002'', CheckStatus ''1000001''] full_train_queued)
       ''12028'' (Some 2) pax =
     (Inr \<lparr>pnr = ''1000003'', train = 0, passengers = [pax 0, pax 1], status = Waiting\<rparr>,
      snd (book_ticket (exec [CancelTicket ''1000002'', CheckStatus ''1000001''] full_train_queued)
             ''12028'' (Some 2) pax)) \<and>
   str_value ''1000002'' < str_value ''1000003''"
proof -
  have a: "book_ticket full_train ''12028'' (Some 1) pax =
     (Inr \<lparr>pnr = ''1000002'', train = 0, passengers = [pax 0], status = Waiting\<rparr>,
      full_train_queued)"
    by (simp add: full_train_queued_def full_train_def run_defs)
  have b: "book_ticket (exec [CancelTicket ''1000002'', CheckStatus ''1000001''] full_train_queued)
       ''12028'' (Some 2) pax =
     (Inr \<lparr>pnr = ''1000003'', train = 0, passengers = [pax 0, pax 1], status = Waiting\<rparr>,
      snd (book_ticket (exec [CancelTicket ''1000002'', CheckStatus ''1000001''] full_train_queued)
             ''12028'' (Some 2) pax))"
    by (simp add: full_train_queued_def full_train_def run_defs)
  from pnr_strictly_increasing [OF a b]
  have "str_value (pnr \<lparr>pnr = ''1000002'', train = 0, passengers = [pax 0], status = Waiting\<rparr>)
      < str_value (pnr \<lparr>pnr = ''1000003'', train = 0, passengers = [pax 0, pax 1],
                        status = Waiting\<rparr>)"
    by blast
  then have "str_value ''1000002'' < str_value ''1000003''" by simp
  with a b show ?thesis by blast
qed

section \<open>Booking\<close>

text \<open>
  Claim C6. For a train number filed in the directory and a positive number \<open>n\<close> of
  passengers, \<^verbatim>\<open>book_ticket\<close> stores a new ticket for those \<open>n\<close> passengers under its
  PNR. If the train has at least \<open>n\<close> seats available, the ticket is \<open>Confirmed\<close>, the
  available seats drop by exactly \<open>n\<close> and the waiting list is as before; otherwise the
  ticket is \<open>Waiting\<close>, its PNR is appended at the end of the train's waiting list and the
  available seats are as before.
\<close>

theorem book_ticket_outcome:
  assumes tr: "map_of (trains s) no = Some a" and a: "a < length (heap s)" and n: "0 < n"
  shows "\<exists>t s'. book_ticket s no (Some n) inp = (Inr t, s') \<and> train t = a \<and>
     passengers t = map inp [0..<nat n] \<and> int (length (passengers t)) = n \<and>
     map_of (tickets s') (pnr t) = Some t \<and>
     (if n \<le> available_seats (heap s ! a)
      then status t = Confirmed \<and>
           available_seats (heap s' ! a) = available_seats (heap s ! a) - n \<and>
           waiting_list (heap s' ! a) = waiting_list (heap s ! a)
      else status t = Waiting \<and>
           waiting_list (heap s' ! a) = waiting_list (heap s ! a) @ [pnr t] \<and>
           available_seats (heap s' ! a) = available_seats (heap s ! a))"
proof (cases "n \<le> available_seats (heap s ! a)")
  case True
  with a n show ?thesis
    by (simp add: book_ticket_confirmed [OF tr n True] map_of_update)
next
  case False
  then have lt: "available_seats (heap s ! a) < n" by simp
  with a n show ?thesis
    by (simp add: book_ticket_waiting [OF tr n lt] map_of_update)
qed

theorem book_ticket_outcome_witness:
  "map_of (trains (step fresh_system (AddTrain ''12028'' ''Shatabdi Express'' ''Bengaluru'' ''Chennai'' 2)))
       ''12028'' = Some 0 \<and>
   (\<exists>t s'. book_ticket (step fresh_system
                (AddTrain ''12028'' ''Shatabdi Express'' ''Bengaluru'' ''Chennai'' 2))
              ''12028'' (Some 2) pax = (Inr t, s') \<and>
      status t = Confirmed \<and> available_seats (heap s' ! 0) = 0 \<and> waiting_list (heap s' ! 0) = []) \<and>
   map_of (trains full_train) ''12028'' = Some 0 \<and>
   (\<exists>t s'. book_ticket full_train ''12028'' (Some 1) pax = (Inr t, s') \<and>
      status t = Waiting \<and> available_seats (heap s' ! 0) = 0 \<and>
      waiting_list (heap s' ! 0) = [pnr t])"
proof -
  let ?s = "step fresh_system (AddTrain ''12028'' ''Shatabdi Express'' ''Bengaluru'' ''Chennai'' 2)"
  have a1: "map_of (trains ?s) ''12028'' = Some 0" and a2: "0 < length (heap ?s)"
    and a3: "available_seats (heap ?s ! 0) = 2" and a4: "waiting_list (heap ?s ! 0) = []"
    by (simp_all add: run_defs)
  have b1: "map_of (trains full_train) ''12028'' = Some 0" and b2: "0 < length (heap full_train)"
    and b3: "available_seats (heap full_train ! 0) = 0"
    and b4: "waiting_list (heap full_train ! 0) = []"
    by (simp_all add: full_train_def run_defs)
  have pos2: "(0::int) < 2" and pos1: "(0::int) < 1" by simp_all
  from book_ticket_outcome [OF a1 a2 pos2, of pax] a3 a4
  have A: "\<exists>t s'. book_ticket ?s ''12028'' (Some 2) pax = (Inr t, s') \<and>
      status t = Confirmed \<and> available_seats (heap s' ! 0) = 0 \<and> waiting_list (heap s' ! 0) = []"
    by auto
  from book_ticket_outcome [OF b1 b2 pos1, of pax] b3 b4
  have B: "\<exists>t s'. book_ticket full_train ''12028'' (Some 1) pax = (Inr t, s') \<and>
      status t = Waiting \<and> available_seats (heap s' ! 0) = 0 \<and>
      waiting_list (heap s' ! 0) = [pnr t]"
    by auto
  from a1 A b1 B show ?thesis by blast
qed

section \<open>Promotion from the waiting list\<close>

lemma confirm_waiting_head_empty:
  "waiting_list (heap s ! a) = [] \<Longrightarrow> confirm_waiting_head s a = (Inr None, s)"
  by (simp add: confirm_waiting_head_def)

lemma confirm_waiting_head_blocked:
  assumes "waiting_list (heap s ! a) = h # rest" "map_of (tickets s) h = Some th"
    "available_seats (heap s ! a) < int (length (passengers th))"
  shows "confirm_waiting_head s a = (Inr None, s)"
  using assms by (simp add: confirm_waiting_head_def)

lemma confirm_waiting_head_fits:
  assumes "waiting_list (heap s ! a) = h # rest" "map_of (tickets s) h = Some th"
    "int (length (passengers th)) \<le> available_seats (heap s ! a)"
  shows "confirm_waiting_head s a =
     (Inr (Some h),
      s\<lparr>heap := (heap s)[a := (heap s ! a)\<lparr>available_seats :=
                       available_seats (heap s ! a) - int (length (passengers th)),
                     waiting_list := rest\<rparr>],
        tickets := AList.update h (th\<lparr>status := Confirmed\<rparr>) (tickets s)\<rparr>)"
  using assms by (simp add: confirm_waiting_head_def upd_train_def)

text \<open>
  Claim C5. In a cancellation that is not rejected, the first part (marking the ticket)
  leaves every waiting list as it was, and the second part looks at the head of the
  waiting list of the ticket's train only. If the list is empty, or the head needs more
  seats than the train has available at that point, nothing further changes: no entry,
  head or later, is confirmed or removed. If the head fits, the head and no other ticket
  is set to \<open>Confirmed\<close>, its passenger count is subtracted from the available seats, the
  list loses its first entry, and no other train is touched.
\<close>

theorem promotion_head_only:
  assumes pt: "map_of (tickets s) p = Some t" and st: "status t \<noteq> Cancelled"
    and a: "train t < length (heap s)"
  shows "map waiting_list (heap (mark_cancelled s p t)) = map waiting_list (heap s) \<and>
    (waiting_list (heap (mark_cancelled s p t) ! train t) = [] \<longrightarrow>
       cancel_ticket s p = (Inr None, mark_cancelled s p t)) \<and>
    (\<forall>h rest th.
       waiting_list (heap (mark_cancelled s p t) ! train t) = h # rest \<and>
       map_of (tickets (mark_cancelled s p t)) h = Some th \<longrightarrow>
       (if available_seats (heap (mark_cancelled s p t) ! train t) < int (length (passengers th))
        then cancel_ticket s p = (Inr None, mark_cancelled s p t)
        else \<exists>s'. cancel_ticket s p = (Inr (Some h), s') \<and>
               map_of (tickets s') =
                 (map_of (tickets (mark_cancelled s p t)))(h \<mapsto> th\<lparr>status := Confirmed\<rparr>) \<and>
               waiting_list (heap s' ! train t) = rest \<and>
               available_seats (heap s' ! train t) =
                 available_seats (heap (mark_cancelled s p t) ! train t)
                   - int (length (passengers th)) \<and>
               length (heap s') = length (heap s) \<and>
               (\<forall>b. b \<noteq> train t \<longrightarrow> heap s' ! b = heap (mark_cancelled s p t) ! b)))"
proof -
  let ?s1 = "mark_cancelled s p t"
  have c: "cancel_ticket s p = confirm_waiting_head ?s1 (train t)"
    using pt st by (simp add: cancel_ticket_def)
  have hp: "heap ?s1 = heap s" by (simp add: mark_cancelled_eq)
  have 1: "map waiting_list (heap ?s1) = map waiting_list (heap s)" by (simp add: hp)
  have 2: "waiting_list (heap ?s1 ! train t) = [] \<longrightarrow> cancel_ticket s p = (Inr None, ?s1)"
    by (simp add: c confirm_waiting_head_empty)
  have 3: "if available_seats (heap ?s1 ! train t) < int (length (passengers th))
        then cancel_ticket s p = (Inr None, ?s1)
        else \<exists>s'. cancel_ticket s p = (Inr (Some h), s') \<and>
               map_of (tickets s') = (map_of (tickets ?s1))(h \<mapsto> th\<lparr>status := Confirmed\<rparr>) \<and>
               waiting_list (heap s' ! train t) = rest \<and>
               available_seats (heap s' ! train t) =
                 available_seats (heap ?s1 ! train t) - int (length (passengers th)) \<and>
               length (heap s') = length (heap s) \<and>
               (\<forall>b. b \<noteq> train t \<longrightarrow> heap s' ! b = heap ?s1 ! b)"
    if w: "waiting_list (heap ?s1 ! train t) = h # rest"
      and th: "map_of (tickets ?s1) h = Some th" for h rest th
  proof (cases "available_seats (heap ?s1 ! train t) < int (length (passengers th))")
    case True
    with confirm_waiting_head_blocked [OF w th True] c show ?thesis by simp
  next
    case False
    then have le: "int (length (passengers th)) \<le> available_seats (heap ?s1 ! train t)" by simp
    from a have a1: "train t < length (heap ?s1)" by (simp add: hp)
    from False a1 show ?thesis
      unfolding c confirm_waiting_head_fits [OF w th le]
      by (simp add: map_of_update hp)
  qed
  from 1 2 3 show ?thesis by blast
qed


text \<open>
  With two seats available the head (three seats) is not confirmed and neither is the
  later entry that would fit; with four seats available the head alone is confirmed and
  the later entry, for which one seat is left, stays waiting.
\<close>

theorem promotion_head_only_witness:
  "map_of (tickets queue_head_blocked) ''1000001'' =
     Some \<lparr>pnr = ''1000001'', train = 0, passengers = [pax 0, pax 1], status = Confirmed\<rparr> \<and>
   waiting_list (heap queue_head_blocked ! 0) = [''1000002'', ''1000003''] \<and>
   cancel_ticket queue_head_blocked ''1000001'' =
     (Inr None, mark_cancelled queue_head_blocked ''1000001''
        \<lparr>pnr = ''1000001'', train = 0, passengers = [pax 0, pax 1], status = Confirmed\<rparr>) \<and>
   map_of (tickets queue_head_fits) ''1000001'' =
     Some \<lparr>pnr = ''1000001'', train = 0, passengers = [pax 0, pax 1], status = Confirmed\<rparr> \<and>
   waiting_list (heap queue_head_fits ! 0) = [''1000002'', ''1000003''] \<and>
   (\<exists>s'. cancel_ticket queue_head_fits ''1000001'' = (Inr (Some ''1000002''), s') \<and>
      waiting_list (heap s' ! 0) = [''1000003''] \<and> available_seats (heap s' ! 0) = 1 \<and>
      map_of (tickets s') ''1000002'' =
        Some \<lparr>pnr = ''1000002'', train = 0, passengers = [pax 0, pax 1, pax 2],
              status = Confirmed\<rparr> \<and>
      map_of (tickets s') ''1000003'' =
        Some \<lparr>pnr = ''1000003'', train = 0, passengers = [pax 0], status = Waiting\<rparr>)"
proof -
  let ?t1 = "\<lparr>pnr = ''1000001'', train = 0, passengers = [pax 0, pax 1], status = Confirmed\<rparr>"
  let ?t2 = "\<lparr>pnr = ''1000002'', train = 0, passengers = [pax 0, pax 1, pax 2], status = Waiting\<rparr>"
  let ?B = "queue_head_blocked" and ?F = "queue_head_fits"
  have st: "status ?t1 \<noteq> Cancelled" by simp
  have Bp: "map_of (tickets ?B) ''1000001'' = Some ?t1"
    and Ba: "train ?t1 < length (heap ?B)"
    and Bl: "waiting_list (heap ?B ! 0) = [''1000002'', ''1000003'']"
    and Bw: "waiting_list (heap (mark_cancelled ?B ''1000001'' ?t1) ! train ?t1)
               = ''1000002'' # [''1000003'']"
    and Bh: "map_of (tickets (mark_cancelled ?B ''1000001'' ?t1)) ''1000002'' = Some ?t2"
    and Bv: "available_seats (heap (mark_cancelled ?B ''1000001'' ?t1) ! train ?t1)
               < int (length (passengers ?t2))"
    by (simp_all add: queue_head_blocked_def queue_members_def run_defs)
  from promotion_head_only [OF Bp st Ba] Bw Bh
  have "if available_seats (heap (mark_cancelled ?B ''1000001'' ?t1) ! train ?t1)
           < int (length (passengers ?t2))
        then cancel_ticket ?B ''1000001'' = (Inr None, mark_cancelled ?B ''1000001'' ?t1)
        else \<exists>s'. cancel_ticket ?B ''1000001'' = (Inr (Some ''1000002''), s') \<and>
               map_of (tickets s') =
                 (map_of (tickets (mark_cancelled ?B ''1000001'' ?t1)))
                   (''1000002'' \<mapsto> ?t2\<lparr>status := Confirmed\<rparr>) \<and>
               waiting_list (heap s' ! train ?t1) = [''1000003''] \<and>
               available_seats (heap s' ! train ?t1) =
                 available_seats (heap (mark_cancelled ?B ''1000001'' ?t1) ! train ?t1)
                   - int (length (passengers ?t2)) \<and>
               length (heap s') = length (heap ?B) \<and>
               (\<forall>b. b \<noteq> train ?t1 \<longrightarrow> heap s' ! b = heap (mark_cancelled ?B ''1000001'' ?t1) ! b)"
    by blast
  with Bv have B: "cancel_ticket ?B ''1000001'' = (Inr None, mark_cancelled ?B ''1000001'' ?t1)"
    by (simp only: if_True)
  have Fp: "map_of (tickets ?F) ''1000001'' = Some ?t1"
    and Fa: "train ?t1 < length (heap ?F)"
    and Fl: "waiting_list (heap ?F ! 0) = [''1000002'', ''1000003'']"
    and Fw: "waiting_list (heap (mark_cancelled ?F ''1000001'' ?t1) ! train ?t1)
               = ''1000002'' # [''1000003'']"
    and Fh: "map_of (tickets (mark_cancelled ?F ''1000001'' ?t1)) ''1000002'' = Some ?t2"
    and Fv: "\<not> available_seats (heap (mark_cancelled ?F ''1000001'' ?t1) ! train ?t1)
               < int (length (passengers ?t2))"
    and Fs: "available_seats (heap (mark_cancelled ?F ''1000001'' ?t1) ! train ?t1) = 4"
    and F3: "map_of (tickets (mark_cancelled ?F ''1000001'' ?t1)) ''1000003'' =
        Some \<lparr>pnr = ''1000003'', train = 0, passengers = [pax 0], status = Waiting\<rparr>"
    by (simp_all add: queue_head_fits_def queue_members_def run_defs)
  from promotion_head_only [OF Fp st Fa] Fw Fh
  have "if available_seats (heap (mark_cancelled ?F ''1000001'' ?t1) ! train ?t1)
           < int (length (passengers ?t2))
        then cancel_ticket ?F ''1000001'' = (Inr None, mark_cancelled ?F ''1000001'' ?t1)
        else \<exists>s'. cancel_ticket ?F ''1000001'' = (Inr (Some ''1000002''), s') \<and>
               map_of (tickets s') =
                 (map_of (tickets (mark_cancelled ?F ''1000001'' ?t1)))
                   (''1000002'' \<mapsto> ?t2\<lparr>status := Confirmed\<rparr>) \<and>
               waiting_list (heap s' ! train ?t1) = [''1000003''] \<and>
               available_seats (heap s' ! train ?t1) =
                 available_seats (heap (mark_cancelled ?F ''1000001'' ?t1) ! train ?t1)
                   - int (length (passengers ?t2)) \<and>
               length (heap s') = length (heap ?F) \<and>
               (\<forall>b. b \<noteq> train ?t1 \<longrightarrow> heap s' ! b = heap (mark_cancelled ?F ''1000001'' ?t1) ! b)"
    by blast
  with Fv obtain s' where
    s': "cancel_ticket ?F ''1000001'' = (Inr (Some ''1000002''), s')"
      "map_of (tickets s') =
         (map_of (tickets (mark_cancelled ?F ''1000001'' ?t1)))
           (''1000002'' \<mapsto> ?t2\<lparr>status := Confirmed\<rparr>)"
      "waiting_list (heap s' ! train ?t1) = [''1000003'']"
      "available_seats (heap s' ! train ?t1) =
         available_seats (heap (mark_cancelled ?F ''1000001'' ?t1) ! train ?t1)
           - int (length (passengers ?t2))"
    by (simp only: if_False) blast
  from s'(2) F3 have
    t2: "map_of (tickets s') ''1000002'' =
        Some \<lparr>pnr = ''1000002'', train = 0, passengers = [pax 0, pax 1, pax 2],
              status = Confirmed\<rparr>"
    and t3: "map_of (tickets s') ''1000003'' =
        Some \<lparr>pnr = ''1000003'', train = 0, passengers = [pax 0], status = Waiting\<rparr>"
    by simp_all
  from s'(3) have wl: "waiting_list (heap s' ! 0) = [''1000003'']" by simp
  from s'(4) Fs have av: "available_seats (heap s' ! 0) = 1" by simp
  from s'(1) wl av t2 t3
  have F: "\<exists>s'. cancel_ticket ?F ''1000001'' = (Inr (Some ''1000002''), s') \<and>
      waiting_list (heap s' ! 0) = [''1000003''] \<and> available_seats (heap s' ! 0) = 1 \<and>
      map_of (tickets s') ''1000002'' =
        Some \<lparr>pnr = ''1000002'', train = 0, passengers = [pax 0, pax 1, pax 2],
              status = Confirmed\<rparr> \<and>
      map_of (tickets s') ''1000003'' =
        Some \<lparr>pnr = ''1000003'', train = 0, passengers = [pax 0], status = Waiting\<rparr>"
    by blast
  from Bp Bl B Fp Fl F show ?thesis by blast
qed

end
